theory Spec2Isabelle
  imports Main "HOL-Library.Sublist"
begin

section \<open>Strings of the runtime\<close>

text \<open>
  A JavaScript string is a sequence of UTF-16 code units and \<open>.length\<close> counts them.
  Here a string is a \<^typ>\<open>string\<close>: each \<^typ>\<open>char\<close> stands for one code unit
  in the range 0 to 255, so the development covers the prompts whose code units all lie
  in that range. On that range the built-in operations used by \<open>server.js\<close> are
  written out below as the language defines them.
\<close>

definition code_unit :: "char \<Rightarrow> nat" where
  "code_unit c = of_char c"

definition is_word_char :: "char \<Rightarrow> bool" where
  \<comment> \<open>the class \<open>\w\<close>, that is \<open>[A-Za-z0-9_]\<close>\<close>
  "is_word_char c =
     (let n = code_unit c
      in (48 \<le> n \<and> n \<le> 57) \<or> (65 \<le> n \<and> n \<le> 90) \<or> n = 95 \<or> (97 \<le> n \<and> n \<le> 122))"

definition is_space_char :: "char \<Rightarrow> bool" where
  \<comment> \<open>the class \<open>\s\<close>, also what \<open>trim\<close> strips: tab, LF, VT, FF, CR, space, no-break space\<close>
  "is_space_char c =
     (let n = code_unit c in (9 \<le> n \<and> n \<le> 13) \<or> n = 32 \<or> n = 160)"

definition toLowerCase_char :: "char \<Rightarrow> char" where
  "toLowerCase_char c =
     (let n = code_unit c
      in if (65 \<le> n \<and> n \<le> 90) \<or> (192 \<le> n \<and> n \<le> 222 \<and> n \<noteq> 215)
         then char_of (n + 32) else c)"

definition toLowerCase :: "string \<Rightarrow> string" where
  "toLowerCase s = map toLowerCase_char s"

definition canonicalize :: "char \<Rightarrow> nat" where
  \<comment> \<open>what the \<open>i\<close> flag compares (no \<open>u\<close> flag): the upper-case code unit\<close>
  "canonicalize c =
     (let n = code_unit c
      in if (97 \<le> n \<and> n \<le> 122) \<or> (224 \<le> n \<and> n \<le> 254 \<and> n \<noteq> 247) then n - 32
         else if n = 255 then 376
         else if n = 181 then 924
         else n)"

fun startsWith :: "string \<Rightarrow> string \<Rightarrow> bool" where
  "startsWith s [] = True"
| "startsWith [] (k # ks) = False"
| "startsWith (c # cs) (k # ks) = (c = k \<and> startsWith cs ks)"

fun includes_str :: "string \<Rightarrow> string \<Rightarrow> bool" where
  "includes_str [] k = startsWith [] k"
| "includes_str (c # cs) k = (startsWith (c # cs) k \<or> includes_str cs k)"

definition trim :: "string \<Rightarrow> string" where
  "trim s = rev (dropWhile is_space_char (rev (dropWhile is_space_char s)))"

fun split :: "char \<Rightarrow> string \<Rightarrow> string list" where
  \<comment> \<open>\<open>s.split(sep)\<close> with a separator of one code unit; never empty\<close>
  "split sep [] = [[]]"
| "split sep (c # cs) =
     (if c = sep then [] # split sep cs
      else (case split sep cs of [] \<Rightarrow> [[c]] | l # ls \<Rightarrow> (c # l) # ls))"

fun join :: "string \<Rightarrow> string list \<Rightarrow> string" where
  "join sep [] = []"
| "join sep [l] = l"
| "join sep (l # ls) = l @ sep @ join sep ls"

section \<open>Regular expressions\<close>

text \<open>
  The three patterns of \<open>detectAmbiguity\<close> are built from literal text, alternation,
  sequence, \<open>\b\<close>, \<open>\s+\<close>, \<open>\w+\<close> and a negative lookahead, all under the \<open>i\<close> flag.
  A position is the code unit before it (if any) and the rest of the input. The matcher
  is the backtracking one of the language definition, in continuation style: it says
  whether some way of matching the pattern lets the continuation succeed.
\<close>

datatype char_class = WordClass | SpaceClass

fun in_class :: "char_class \<Rightarrow> char \<Rightarrow> bool" where
  "in_class WordClass c = is_word_char c"
| "in_class SpaceClass c = is_space_char c"

datatype regex =
    Lit string
  | Alt regex regex
  | Seq regex regex
  | Plus char_class
  | WordBoundary
  | NegLookahead regex

type_synonym position = "char option \<times> string"

definition word_before :: "position \<Rightarrow> bool" where
  "word_before p = (case fst p of None \<Rightarrow> False | Some c \<Rightarrow> is_word_char c)"

definition word_after :: "position \<Rightarrow> bool" where
  "word_after p = (case snd p of [] \<Rightarrow> False | c # _ \<Rightarrow> is_word_char c)"

fun lit_match :: "string \<Rightarrow> (position \<Rightarrow> bool) \<Rightarrow> position \<Rightarrow> bool" where
  "lit_match [] k p = k p"
| "lit_match (c # cs) k (prev, []) = False"
| "lit_match (c # cs) k (prev, x # xs) =
     (canonicalize c = canonicalize x \<and> lit_match cs k (Some x, xs))"

fun plus_match :: "char_class \<Rightarrow> (position \<Rightarrow> bool) \<Rightarrow> position \<Rightarrow> bool" where
  "plus_match cl k (prev, []) = False"
| "plus_match cl k (prev, x # xs) =
     (in_class cl x \<and> (plus_match cl k (Some x, xs) \<or> k (Some x, xs)))"

fun rmatch :: "regex \<Rightarrow> (position \<Rightarrow> bool) \<Rightarrow> position \<Rightarrow> bool" where
  "rmatch (Lit w) k p = lit_match w k p"
| "rmatch (Alt a b) k p = (rmatch a k p \<or> rmatch b k p)"
| "rmatch (Seq a b) k p = rmatch a (rmatch b k) p"
| "rmatch (Plus cl) k p = plus_match cl k p"
| "rmatch WordBoundary k p = (word_before p \<noteq> word_after p \<and> k p)"
| "rmatch (NegLookahead a) k p = (\<not> rmatch a (\<lambda>_. True) p \<and> k p)"

fun search :: "regex \<Rightarrow> position \<Rightarrow> bool" where
  \<comment> \<open>try every start index from the left\<close>
  "search r (prev, []) = rmatch r (\<lambda>_. True) (prev, [])"
| "search r (prev, x # xs) = (rmatch r (\<lambda>_. True) (prev, x # xs) \<or> search r (Some x, xs))"

definition test :: "regex \<Rightarrow> string \<Rightarrow> bool" where
  \<comment> \<open>\<open>re.test(s)\<close> on a regular expression object whose \<open>lastIndex\<close> is 0\<close>
  "test r s = search r (None, s)"

fun alternatives :: "string list \<Rightarrow> regex" where
  "alternatives [] = NegLookahead (Lit [])"
| "alternatives [w] = Lit w"
| "alternatives (w # ws) = Alt (Lit w) (alternatives ws)"

section \<open>Ambiguity detection\<close>

record finding =
  ftype :: string
  question :: string
  options :: "string list"

record detection =
  hasAmbiguity :: bool
  questions :: "finding list"

definition vague_words :: "string list" where
  "vague_words = [''some'', ''few'', ''many'', ''several'', ''a bit'', ''lots of'']"

definition opener_words :: "string list" where
  "opener_words = [''explain'', ''describe'', ''tell me about'']"

definition interrogatives :: "string list" where
  "interrogatives = [''how'', ''why'', ''when'', ''where'']"

definition format_words :: "string list" where
  "format_words = [''list'', ''table'', ''summary'', ''paragraph'', ''code'', ''json'', ''steps'']"

definition vagueQuantifiers :: regex where
  "vagueQuantifiers = Seq WordBoundary (Seq (alternatives vague_words) WordBoundary)"

definition broadTopics :: regex where
  "broadTopics =
     Seq WordBoundary (Seq (alternatives opener_words) (Seq (Plus SpaceClass)
       (Seq (NegLookahead (alternatives interrogatives)) (Plus WordClass))))"

definition formatKeywords :: regex where
  "formatKeywords = Seq WordBoundary (Seq (alternatives format_words) WordBoundary)"

definition vague_quantifier :: finding where
  "vague_quantifier =
     \<lparr>ftype = ''vague_quantifier'',
      question = ''How many examples or items would you like?'',
      options = [''1-2'', ''3-5'', ''5-10'', ''More than 10'']\<rparr>"

definition undefined_scope :: finding where
  "undefined_scope =
     \<lparr>ftype = ''undefined_scope'',
      question = ''What level of detail do you need?'',
      options = [''Brief overview'', ''Moderate detail'', ''In-depth explanation'']\<rparr>"

definition missing_format :: finding where
  "missing_format =
     \<lparr>ftype = ''missing_format'',
      question = ''How should the output be formatted?'',
      options = [''Bullet points'', ''Paragraph'', ''Step-by-step'', ''Table'']\<rparr>"

definition push_if :: "bool \<Rightarrow> 'a \<Rightarrow> 'a list \<Rightarrow> 'a list" where
  \<comment> \<open>\<open>if (cond) { xs.push(x) }\<close>\<close>
  "push_if cond x xs = (if cond then xs @ [x] else xs)"

definition detectAmbiguity :: "string \<Rightarrow> detection" where
  "detectAmbiguity prompt =
     (let ambiguities = push_if (test vagueQuantifiers prompt) vague_quantifier [];
          ambiguities = push_if (test broadTopics prompt \<and> length prompt < 50)
                          undefined_scope ambiguities;
          ambiguities = push_if (\<not> test formatKeywords prompt
                                  \<and> length (split CHR '' '' prompt) > 10)
                          missing_format ambiguities
      in \<lparr>hasAmbiguity = length ambiguities > 0, questions = take 3 ambiguities\<rparr>)"


section \<open>Response formatting\<close>

record chat_message =
  role :: string
  content :: string

datatype api_ready =
    ClaudePayload string nat "chat_message list"
  | ChatgptPayload string "chat_message list" int
  | GeminiPayload string "string list"
  | PerplexityPayload string "chat_message list"
  | PromptPayload string

record reframed =
  raw :: string
  api_ready :: api_ready

record metadata =
  timestamp :: string
  original_length :: nat
  reframed_length :: nat

record response =
  model :: string
  original_prompt :: string
  reframed :: reframed
  metadata :: metadata
  error :: "string option"

definition newline :: char where
  "newline = CHR 0x0A"

fun scan_lines :: "string list \<Rightarrow> string list \<Rightarrow> string list" where
  \<comment> \<open>the \<open>for\<close> loop of \<open>extractSystemPrompt\<close>: the lines left, then \<open>systemContent\<close>\<close>
  "scan_lines [] systemContent = systemContent"
| "scan_lines (line # rest) systemContent =
     (if startsWith (trim line) ''#'' \<and> length systemContent > 0 then systemContent
      else scan_lines rest (systemContent @ [line]))"

definition extractSystemPrompt :: "string \<Rightarrow> string" where
  "extractSystemPrompt prompt =
     (let lines = split newline prompt;
          systemContent = scan_lines lines [];
          joined = trim (join [newline] systemContent)
      in if joined = [] then prompt else joined)"

definition extractUserTask :: "string \<Rightarrow> string" where
  "extractUserTask prompt = prompt"

definition formatForModel :: "string \<Rightarrow> string \<Rightarrow> string \<Rightarrow> string \<Rightarrow> response" where
  \<comment> \<open>the last argument is the clock reading \<open>new Date().toISOString()\<close>\<close>
  "formatForModel mdl restructuredPrompt originalPrompt now =
     \<lparr>model = mdl,
      original_prompt = originalPrompt,
      reframed =
        \<lparr>raw = restructuredPrompt,
         api_ready =
           (if mdl = ''claude'' then
              ClaudePayload ''claude-3-5-sonnet-20241022'' 4096
                [\<lparr>role = ''user'', content = restructuredPrompt\<rparr>]
            else if mdl = ''chatgpt'' then
              ChatgptPayload ''gpt-4o''
                [\<lparr>role = ''system'', content = extractSystemPrompt restructuredPrompt\<rparr>,
                 \<lparr>role = ''user'', content = extractUserTask restructuredPrompt\<rparr>] 0
            else if mdl = ''gemini'' then
              GeminiPayload ''gemini-2.5-flash'' [restructuredPrompt]
            else if mdl = ''perplexity'' then
              PerplexityPayload ''sonar'' [\<lparr>role = ''system'', content = restructuredPrompt\<rparr>]
            else PromptPayload restructuredPrompt)\<rparr>,
      metadata =
        \<lparr>timestamp = now,
         original_length = length originalPrompt,
         reframed_length = length restructuredPrompt\<rparr>,
      error = None\<rparr>"

section \<open>Image generation detection\<close>

definition imageKeywords :: "string list" where
  "imageKeywords = [''image'', ''picture'', ''photo'', ''visual'', ''graphic'', ''illustration'',
     ''artwork'', ''thumbnail'', ''poster'', ''banner'']"

definition creationVerbs :: "string list" where
  "creationVerbs = [''create'', ''generate'', ''make'', ''design'', ''draw'', ''produce'', ''craft'']"

definition qualityKeywords :: "string list" where
  "qualityKeywords = [''high quality'', ''vibrant'', ''eye-catching'', ''ultra'', ''stunning'',
     ''dramatic'', ''cinematic'']"

definition isImageGenerationRequest :: "string \<Rightarrow> bool" where
  "isImageGenerationRequest prompt =
     (let lowerPrompt = toLowerCase prompt;
          hasImageKeyword = list_ex (\<lambda>keyword. includes_str lowerPrompt keyword) imageKeywords;
          hasCreationVerb = list_ex (\<lambda>verb. includes_str lowerPrompt verb) creationVerbs;
          hasQualityKeyword = list_ex (\<lambda>keyword. includes_str lowerPrompt keyword) qualityKeywords
      in hasImageKeyword \<and> (hasCreationVerb \<or> hasQualityKeyword))"

section \<open>The reframe route\<close>

text \<open>
  The instruction texts are static data. The five per-model texts interpolate
  \<open>model-examples.json\<close>, which is not among the sources, so all six texts are a parameter.
\<close>

record instruction_texts =
  chatgpt_text :: string
  claude_text :: string
  gemini_text :: string
  perplexity_text :: string
  others_text :: string
  image_text :: string

text \<open>
  \<open>MODEL_TEMPLATES\<close> is an object literal, so \<open>MODEL_TEMPLATES[model]\<close> finds the five own
  keys and, through the prototype chain, the properties of \<open>Object.prototype\<close>; these are
  functions or objects without a \<open>systemPrompt\<close>.
\<close>

datatype template_lookup = Undefined | OwnTemplate string | InheritedProperty

definition object_prototype_properties :: "string list" where
  "object_prototype_properties = [''constructor'', ''__defineGetter__'', ''__defineSetter__'',
     ''hasOwnProperty'', ''__lookupGetter__'', ''__lookupSetter__'', ''isPrototypeOf'',
     ''propertyIsEnumerable'', ''toString'', ''valueOf'', ''__proto__'', ''toLocaleString'']"

definition MODEL_TEMPLATES :: "instruction_texts \<Rightarrow> string \<Rightarrow> template_lookup" where
  "MODEL_TEMPLATES txt m =
     (if m = ''chatgpt'' then OwnTemplate (chatgpt_text txt)
      else if m = ''claude'' then OwnTemplate (claude_text txt)
      else if m = ''gemini'' then OwnTemplate (gemini_text txt)
      else if m = ''perplexity'' then OwnTemplate (perplexity_text txt)
      else if m = ''others'' then OwnTemplate (others_text txt)
      else if m \<in> set object_prototype_properties then InheritedProperty
      else Undefined)"

fun systemPrompt :: "template_lookup \<Rightarrow> string option" where
  "systemPrompt (OwnTemplate t) = Some t"
| "systemPrompt InheritedProperty = None"
| "systemPrompt Undefined = None"

record request =
  raw_prompt :: "string option"
  model_id :: "string option"
  clarifications :: "(string \<times> string) list option"

record completion_request =
  completion_model :: string
  temperature :: int
  system_content :: "string option"
  user_content :: string

text \<open>
  The completion call either rejects, or resolves with a response; \<open>Resolved None\<close> is a
  response in which \<open>choices[0].message.content\<close> is not a string, so that reading and
  trimming it throws.
\<close>

datatype completion_outcome = Rejected | Resolved "string option"

datatype body =
    ErrorBody string
  | PassThroughBody string string string string
  | ResultBody response

record http_response =
  status :: nat
  body :: body

fun body_reframed_raw :: "body \<Rightarrow> string option" where
  \<comment> \<open>the member \<open>reframed.raw\<close> of the JSON body, if it has one\<close>
  "body_reframed_raw (ResultBody r) = Some (raw (reframed r))"
| "body_reframed_raw (PassThroughBody p m e t) = None"
| "body_reframed_raw (ErrorBody e) = None"

fun body_restructured_prompt :: "body \<Rightarrow> string option" where
  "body_restructured_prompt (PassThroughBody p m e t) = Some p"
| "body_restructured_prompt (ResultBody r) = None"
| "body_restructured_prompt (ErrorBody e) = None"

fun body_error :: "body \<Rightarrow> string option" where
  "body_error (ErrorBody e) = Some e"
| "body_error (PassThroughBody p m e t) = Some e"
| "body_error (ResultBody r) = error r"

fun render_clarifications :: "(string \<times> string) list \<Rightarrow> string" where
  "render_clarifications [] = []"
| "render_clarifications ((key, val) # rest) =
     ''- '' @ key @ '': '' @ val @ [newline] @ render_clarifications rest"

definition clarificationContext :: "(string \<times> string) list option \<Rightarrow> string" where
  "clarificationContext cl =
     (case cl of
        None \<Rightarrow> []
      | Some entries \<Rightarrow>
          if length entries > 0
          then [newline, newline] @ ''Clarifications provided by user:'' @ [newline]
                 @ render_clarifications entries
          else [])"

definition falsy :: "string option \<Rightarrow> bool" where
  \<comment> \<open>\<open>!x\<close> for a value that is a string or absent\<close>
  "falsy x = (case x of None \<Rightarrow> True | Some s \<Rightarrow> s = [])"

definition degraded :: "string \<Rightarrow> string \<Rightarrow> string \<Rightarrow> http_response" where
  \<comment> \<open>the \<open>catch\<close> block\<close>
  "degraded m p now =
     \<lparr>status = 200,
      body = ResultBody ((formatForModel m p p now)
               \<lparr>error := Some ''Automatic restructuring unavailable''\<rparr>)\<rparr>"

definition missing_prompt :: http_response where
  "missing_prompt = \<lparr>status = 400, body = ErrorBody ''Prompt is required''\<rparr>"

definition invalid_model :: http_response where
  "invalid_model = \<lparr>status = 400, body = ErrorBody ''Invalid model specified''\<rparr>"

definition reframe ::
  "instruction_texts \<Rightarrow> string option \<Rightarrow> (completion_request \<Rightarrow> completion_outcome) \<Rightarrow> string
     \<Rightarrow> request \<Rightarrow> http_response \<times> completion_request list" where
  \<comment> \<open>arguments: the instruction texts, \<open>process.env.OPENAI_API_KEY\<close> as the route reads
      it, the completion service, the clock reading, the request body; result: the
      response and the completion calls made\<close>
  "reframe txt api_key create now req =
     (case raw_prompt req of
        None \<Rightarrow> (missing_prompt, [])
      | Some p \<Rightarrow>
          if p = [] then (missing_prompt, [])
          else (case model_id req of
             None \<Rightarrow> (invalid_model, [])
           | Some m \<Rightarrow>
               if m = [] \<or> MODEL_TEMPLATES txt m = Undefined then (invalid_model, [])
               else if falsy api_key then
                 (\<lparr>status = 200,
                   body = PassThroughBody p m ''API key not configured'' now\<rparr>, [])
               else
                 let isImageRequest = isImageGenerationRequest p;
                     sys = (if isImageRequest then Some (image_text txt)
                            else systemPrompt (MODEL_TEMPLATES txt m));
                     call = \<lparr>completion_model = ''gpt-4o-mini'', temperature = 0,
                             system_content = sys,
                             user_content = ''Original prompt: '' @ p
                                              @ clarificationContext (clarifications req)\<rparr>
                 in (case create call of
                       Resolved (Some text) \<Rightarrow>
                         (\<lparr>status = 200,
                           body = ResultBody (formatForModel m (trim text) p now)\<rparr>, [call])
                     | Resolved None \<Rightarrow> (degraded m p now, [call])
                     | Rejected \<Rightarrow> (degraded m p now, [call]))))"

text \<open>
  The module checks the key once when it is loaded and throws without it; the route is
  registered only after that. A request is therefore answered by the route only in a
  process whose load succeeded, with the same environment.
\<close>

definition load_error :: "string option \<Rightarrow> string option" where
  \<comment> \<open>\<open>if (!process.env.OPENAI_API_KEY) throw new Error("OPENAI_API_KEY is missing")\<close>\<close>
  "load_error api_key = (if falsy api_key then Some ''OPENAI_API_KEY is missing'' else None)"

definition serve_reframe ::
  "instruction_texts \<Rightarrow> string option \<Rightarrow> (completion_request \<Rightarrow> completion_outcome) \<Rightarrow> string
     \<Rightarrow> request \<Rightarrow> string + http_response \<times> completion_request list" where
  "serve_reframe txt api_key create now req =
     (case load_error api_key of
        Some message \<Rightarrow> Inl message
      | None \<Rightarrow> Inr (reframe txt api_key create now req))"

section \<open>The properties in the words of the specification\<close>

definition same_ignoring_case :: "string \<Rightarrow> string \<Rightarrow> bool" where
  "same_ignoring_case a b = (toLowerCase a = toLowerCase b)"

definition at_word_boundary :: "string \<Rightarrow> string \<Rightarrow> bool" where
  \<comment> \<open>between the text before and the text after, exactly one side has a word character\<close>
  "at_word_boundary before rest =
     ((before \<noteq> [] \<and> is_word_char (last before)) \<noteq> (rest \<noteq> [] \<and> is_word_char (hd rest)))"

definition has_whole_word :: "string \<Rightarrow> string \<Rightarrow> bool" where
  "has_whole_word s w =
     (\<exists>pre m post. s = pre @ m @ post \<and> same_ignoring_case m w
        \<and> at_word_boundary pre (m @ post) \<and> at_word_boundary (pre @ m) post)"

definition begins_with_ignoring_case :: "string \<Rightarrow> string \<Rightarrow> bool" where
  "begins_with_ignoring_case s w = (\<exists>m t. s = m @ t \<and> same_ignoring_case m w)"

definition has_broad_opener :: "string \<Rightarrow> bool" where
  \<comment> \<open>an opener, white space, then a word that is none of how, why, when, where\<close>
  "has_broad_opener s =
     (\<exists>pre opener gap word rest. s = pre @ opener @ gap @ word @ rest
        \<and> (\<exists>w\<in>set opener_words. same_ignoring_case opener w)
        \<and> at_word_boundary pre (opener @ gap @ word @ rest)
        \<and> gap \<noteq> [] \<and> (\<forall>c\<in>set gap. is_space_char c)
        \<and> word \<noteq> [] \<and> (\<forall>c\<in>set word. is_word_char c)
        \<and> (rest = [] \<or> \<not> is_word_char (hd rest))
        \<and> \<not> (\<exists>q\<in>set interrogatives. same_ignoring_case word q))"

definition has_broad_opener_by_prefix :: "string \<Rightarrow> bool" where
  \<comment> \<open>an opener, white space, then a word, where what follows the white space does not
      begin with how, why, when or where\<close>
  "has_broad_opener_by_prefix s =
     (\<exists>pre opener gap rest. s = pre @ opener @ gap @ rest
        \<and> (\<exists>w\<in>set opener_words. same_ignoring_case opener w)
        \<and> at_word_boundary pre (opener @ gap @ rest)
        \<and> gap \<noteq> [] \<and> (\<forall>c\<in>set gap. is_space_char c)
        \<and> rest \<noteq> [] \<and> is_word_char (hd rest)
        \<and> \<not> (\<exists>q\<in>set interrogatives. begins_with_ignoring_case rest q))"

definition names_format_word :: "string \<Rightarrow> bool" where
  "names_format_word s = (\<exists>w\<in>set format_words. has_whole_word s w)"

fun count_tokens :: "bool \<Rightarrow> string \<Rightarrow> nat" where
  \<comment> \<open>the flag says whether the code unit before belongs to a token\<close>
  "count_tokens inside [] = 0"
| "count_tokens inside (c # cs) =
     (if is_space_char c then count_tokens False cs
      else (if inside then 0 else 1) + count_tokens True cs)"

definition whitespace_tokens :: "string \<Rightarrow> nat" where
  "whitespace_tokens s = count_tokens False s"

definition is_substring :: "string \<Rightarrow> string \<Rightarrow> bool" where
  "is_substring k s = (\<exists>pre post. s = pre @ k @ post)"

fun boundary_scan :: "string list \<Rightarrow> string list \<Rightarrow> string list option" where
  \<comment> \<open>the lines before the first heading line that has a line before it, if there is one\<close>
  "boundary_scan acc [] = None"
| "boundary_scan acc (line # rest) =
     (if startsWith (trim line) ''#'' \<and> acc \<noteq> [] then Some acc
      else boundary_scan (acc @ [line]) rest)"

definition stated_system_content :: "string \<Rightarrow> string" where
  "stated_system_content text =
     (case boundary_scan [] (split newline text) of
        Some before \<Rightarrow> join [newline] before
      | None \<Rightarrow> text)"

definition amended_system_content :: "string \<Rightarrow> string" where
  \<comment> \<open>the lines before the boundary (all lines if there is none), joined and trimmed;
      the whole text when that is empty\<close>
  "amended_system_content text =
     (let lines = split newline text;
          before = (case boundary_scan [] lines of Some b \<Rightarrow> b | None \<Rightarrow> lines);
          trimmed = trim (join [newline] before)
      in if trimmed = [] then text else trimmed)"

definition recognized_models :: "string set" where
  "recognized_models = {''chatgpt'', ''claude'', ''gemini'', ''perplexity'', ''others''}"


section \<open>Sample data for the concrete instances\<close>

definition sample_texts :: instruction_texts where
  "sample_texts =
     \<lparr>chatgpt_text = ''You are a prompt restructuring engine for ChatGPT/OpenAI models.'',
      claude_text = ''You are a prompt restructuring engine for Claude AI.'',
      gemini_text = ''You are a prompt restructuring engine for Gemini AI.'',
      perplexity_text = ''You are a prompt restructuring engine for Perplexity AI.'',
      others_text = ''You are a prompt restructuring engine for general AI models.'',
      image_text = ''You are an expert prompt architect for image generation AI models''\<rparr>"

section \<open>Auxiliary notions for the proofs\<close>

definition lower_unit :: "nat \<Rightarrow> nat" where
  "lower_unit n =
     (if (65 \<le> n \<and> n \<le> 90) \<or> (192 \<le> n \<and> n \<le> 222 \<and> n \<noteq> 215) then n + 32 else n)"

definition upper_unit :: "nat \<Rightarrow> nat" where
  "upper_unit n =
     (if (97 \<le> n \<and> n \<le> 122) \<or> (224 \<le> n \<and> n \<le> 254 \<and> n \<noteq> 247) then n - 32
      else if n = 255 then 376
      else if n = 181 then 924
      else n)"

definition back_unit :: "nat \<Rightarrow> nat" where
  "back_unit x = (if x = 376 then 255 else if x = 924 then 181 else lower_unit x)"

definition after :: "char option \<Rightarrow> string \<Rightarrow> char option" where
  \<comment> \<open>the code unit before the position reached by reading \<open>m\<close>\<close>
  "after prev m = (if m = [] then prev else Some (last m))"

section \<open>Case folding\<close>

lemma code_unit_toLowerCase_char: "code_unit (toLowerCase_char c) = lower_unit (code_unit c)"
  by (simp add: toLowerCase_char_def lower_unit_def Let_def code_unit_def)

lemma canonicalize_upper_unit: "canonicalize c = upper_unit (code_unit c)"
  by (simp add: canonicalize_def upper_unit_def Let_def)

lemma upper_lower_unit: "upper_unit (lower_unit n) = upper_unit n"
proof -
  consider (ascii) "65 \<le> n \<and> n \<le> 90"
    | (latin) "192 \<le> n \<and> n \<le> 222 \<and> n \<noteq> 215"
    | (other) "\<not> (65 \<le> n \<and> n \<le> 90 \<or> 192 \<le> n \<and> n \<le> 222 \<and> n \<noteq> 215)"
    by blast
  then show ?thesis
  proof cases
    case ascii
    then show ?thesis by (auto simp: upper_unit_def lower_unit_def)
  next
    case latin
    then show ?thesis by (auto simp: upper_unit_def lower_unit_def)
  next
    case other
    then show ?thesis by (auto simp: lower_unit_def)
  qed
qed

lemma back_upper_unit:
  assumes "n < 256"
  shows "back_unit (upper_unit n) = lower_unit n"
proof -
  consider (ascii) "97 \<le> n \<and> n \<le> 122"
    | (latin) "224 \<le> n \<and> n \<le> 254 \<and> n \<noteq> 247"
    | (y) "n = 255" | (mu) "n = 181"
    | (other) "\<not> (97 \<le> n \<and> n \<le> 122 \<or> 224 \<le> n \<and> n \<le> 254 \<and> n \<noteq> 247) \<and> n \<noteq> 255 \<and> n \<noteq> 181"
    by blast
  then show ?thesis
  proof cases
    case ascii
    then show ?thesis by (auto simp: upper_unit_def lower_unit_def back_unit_def)
  next
    case latin
    then show ?thesis by (auto simp: upper_unit_def lower_unit_def back_unit_def)
  next
    case y
    then show ?thesis by (auto simp: upper_unit_def lower_unit_def back_unit_def)
  next
    case mu
    then show ?thesis by (auto simp: upper_unit_def lower_unit_def back_unit_def)
  next
    case other
    with assms show ?thesis by (auto simp: back_unit_def upper_unit_def)
  qed
qed

lemma upper_eq_lower_eq:
  assumes "n < 256" "m < 256"
  shows "upper_unit n = upper_unit m \<longleftrightarrow> lower_unit n = lower_unit m"
  by (metis assms back_upper_unit upper_lower_unit)

lemma code_unit_less: "code_unit c < 256"
  by (simp add: code_unit_def)

lemma code_unit_eq_iff: "code_unit a = code_unit b \<longleftrightarrow> a = b"
  by (simp add: code_unit_def)

lemma canonicalize_eq_iff:
  "canonicalize a = canonicalize b \<longleftrightarrow> toLowerCase_char a = toLowerCase_char b"
proof -
  have "toLowerCase_char a = toLowerCase_char b \<longleftrightarrow>
        code_unit (toLowerCase_char a) = code_unit (toLowerCase_char b)"
    by (simp only: code_unit_eq_iff)
  also have "\<dots> \<longleftrightarrow> upper_unit (code_unit a) = upper_unit (code_unit b)"
    by (simp only: code_unit_toLowerCase_char upper_eq_lower_eq[OF code_unit_less code_unit_less])
  finally show ?thesis by (simp add: canonicalize_upper_unit)
qed


lemma after_Nil [simp]: "after prev [] = prev"
  by (simp add: after_def)

lemma after_Cons [simp]: "after prev (x # xs) = after (Some x) xs"
  by (simp add: after_def)

lemma after_append: "after prev (a @ b) = after (after prev a) b"
  by (simp add: after_def)

lemma toLowerCase_Nil [simp]: "toLowerCase [] = []"
  by (simp add: toLowerCase_def)

lemma toLowerCase_eq_Cons:
  "toLowerCase m = toLowerCase (c # cs) \<longleftrightarrow>
     (\<exists>y ys. m = y # ys \<and> toLowerCase_char y = toLowerCase_char c \<and> toLowerCase ys = toLowerCase cs)"
  by (cases m) (auto simp: toLowerCase_def)

lemma lit_match_iff:
  "lit_match w k (prev, s) \<longleftrightarrow>
     (\<exists>m rest. s = m @ rest \<and> toLowerCase m = toLowerCase w \<and> k (after prev m, rest))"
proof (induction w arbitrary: prev s)
  case Nil
  then show ?case by (simp add: toLowerCase_def)
next
  case (Cons c cs)
  show ?case
  proof (cases s)
    case Nil
    then show ?thesis by (simp add: toLowerCase_def)
  next
    case (Cons x xs)
    have "lit_match (c # cs) k (prev, s) \<longleftrightarrow>
          toLowerCase_char x = toLowerCase_char c \<and> lit_match cs k (Some x, xs)"
      using Cons by (auto simp: canonicalize_eq_iff)
    also have "\<dots> \<longleftrightarrow> toLowerCase_char x = toLowerCase_char c \<and>
          (\<exists>m rest. xs = m @ rest \<and> toLowerCase m = toLowerCase cs \<and> k (after (Some x) m, rest))"
      by (simp only: Cons.IH)
    also have "\<dots> \<longleftrightarrow>
          (\<exists>m rest. s = m @ rest \<and> toLowerCase m = toLowerCase (c # cs) \<and> k (after prev m, rest))"
      (is "?L \<longleftrightarrow> ?R")
    proof
      assume ?L
      then obtain m rest where "toLowerCase_char x = toLowerCase_char c" "xs = m @ rest"
        "toLowerCase m = toLowerCase cs" "k (after (Some x) m, rest)" by blast
      then have "s = (x # m) @ rest \<and> toLowerCase (x # m) = toLowerCase (c # cs)
                 \<and> k (after prev (x # m), rest)"
        using Cons by (simp add: toLowerCase_def)
      then show ?R by blast
    next
      assume ?R
      then obtain m rest where m: "s = m @ rest" "toLowerCase m = toLowerCase (c # cs)"
        "k (after prev m, rest)" by blast
      from m(2) obtain y ys where ys: "m = y # ys" "toLowerCase_char y = toLowerCase_char c"
        "toLowerCase ys = toLowerCase cs"
        by (auto simp: toLowerCase_eq_Cons)
      with m Cons show ?L by auto
    qed
    finally show ?thesis .
  qed
qed

lemma alternatives_iff:
  "ws \<noteq> [] \<Longrightarrow> rmatch (alternatives ws) k p \<longleftrightarrow> (\<exists>w\<in>set ws. lit_match w k p)"
  by (induction ws rule: alternatives.induct) auto

lemma plus_match_iff:
  "plus_match cl k (prev, s) \<longleftrightarrow>
     (\<exists>m rest. s = m @ rest \<and> m \<noteq> [] \<and> (\<forall>c\<in>set m. in_class cl c) \<and> k (after prev m, rest))"
proof (induction s arbitrary: prev)
  case Nil
  then show ?case by simp
next
  case (Cons x xs)
  show ?case (is "?L \<longleftrightarrow> ?R")
  proof
    assume ?L
    then have x: "in_class cl x" and d: "plus_match cl k (Some x, xs) \<or> k (Some x, xs)" by simp_all
    from d show ?R
    proof
      assume "plus_match cl k (Some x, xs)"
      then obtain m rest where "xs = m @ rest" "m \<noteq> []" "\<forall>c\<in>set m. in_class cl c"
        "k (after (Some x) m, rest)" using Cons.IH by blast
      with x have "x # xs = (x # m) @ rest \<and> x # m \<noteq> [] \<and> (\<forall>c\<in>set (x # m). in_class cl c)
                    \<and> k (after prev (x # m), rest)" by simp
      then show ?R by blast
    next
      assume "k (Some x, xs)"
      with x have "x # xs = [x] @ xs \<and> [x] \<noteq> [] \<and> (\<forall>c\<in>set [x]. in_class cl c)
                    \<and> k (after prev [x], xs)" by simp
      then show ?R by blast
    qed
  next
    assume ?R
    then obtain m rest where m: "x # xs = m @ rest" "m \<noteq> []" "\<forall>c\<in>set m. in_class cl c"
      "k (after prev m, rest)" by blast
    then obtain ys where ys: "m = x # ys" by (cases m) auto
    show ?L
    proof (cases ys)
      case Nil
      with m ys show ?thesis by simp
    next
      case (Cons z zs)
      with m ys have "xs = ys @ rest \<and> ys \<noteq> [] \<and> (\<forall>c\<in>set ys. in_class cl c)
                      \<and> k (after (Some x) ys, rest)" by simp
      then have "plus_match cl k (Some x, xs)" using Cons.IH by blast
      with m ys show ?thesis by simp
    qed
  qed
qed

lemma search_iff:
  "search r (prev, s) \<longleftrightarrow>
     (\<exists>pre rest. s = pre @ rest \<and> rmatch r (\<lambda>_. True) (after prev pre, rest))"
proof (induction s arbitrary: prev)
  case Nil
  then show ?case by simp
next
  case (Cons x xs)
  show ?case (is "?L \<longleftrightarrow> ?R")
  proof
    assume ?L
    then consider "rmatch r (\<lambda>_. True) (prev, x # xs)" | "search r (Some x, xs)" by auto
    then show ?R
    proof cases
      case 1
      then have "x # xs = [] @ (x # xs) \<and> rmatch r (\<lambda>_. True) (after prev [], x # xs)" by simp
      then show ?thesis by blast
    next
      case 2
      then obtain pre rest where "xs = pre @ rest" "rmatch r (\<lambda>_. True) (after (Some x) pre, rest)"
        using Cons.IH by blast
      then have "x # xs = (x # pre) @ rest \<and> rmatch r (\<lambda>_. True) (after prev (x # pre), rest)"
        by simp
      then show ?thesis by blast
    qed
  next
    assume ?R
    then obtain pre rest where p: "x # xs = pre @ rest" "rmatch r (\<lambda>_. True) (after prev pre, rest)"
      by blast
    show ?L
    proof (cases pre)
      case Nil
      with p have "rmatch r (\<lambda>_. True) (prev, x # xs)" by simp
      then show ?thesis by simp
    next
      case (Cons y ys)
      with p have "xs = ys @ rest \<and> rmatch r (\<lambda>_. True) (after (Some x) ys, rest)" by simp
      then have "search r (Some x, xs)" using Cons.IH by blast
      then show ?thesis by simp
    qed
  qed
qed


lemma word_before_after:
  "word_before (after None pre, rest) \<longleftrightarrow> pre \<noteq> [] \<and> is_word_char (last pre)"
  by (simp add: word_before_def after_def)

lemma word_after_iff: "word_after (p, rest) \<longleftrightarrow> rest \<noteq> [] \<and> is_word_char (hd rest)"
  by (cases rest) (simp_all add: word_after_def)

lemma boundary_position:
  "(word_before (after None pre, rest) \<noteq> word_after (after None pre, rest))
     \<longleftrightarrow> at_word_boundary pre rest"
  by (simp only: word_before_after word_after_iff at_word_boundary_def)



lemma boundary_position_neg:
  "(word_before (after None pre, rest) = (\<not> word_after (after None pre, rest)))
     \<longleftrightarrow> at_word_boundary pre rest"
  using boundary_position[of pre rest] by blast

lemma whole_word_regex:
  assumes "ws \<noteq> []"
  shows "test (Seq WordBoundary (Seq (alternatives ws) WordBoundary)) s
           \<longleftrightarrow> (\<exists>w\<in>set ws. has_whole_word s w)"
proof -
  have "test (Seq WordBoundary (Seq (alternatives ws) WordBoundary)) s \<longleftrightarrow>
        (\<exists>pre rest. s = pre @ rest \<and> at_word_boundary pre rest \<and>
           (\<exists>w\<in>set ws. \<exists>m post. rest = m @ post \<and> toLowerCase m = toLowerCase w
              \<and> at_word_boundary (pre @ m) post))" (is "_ \<longleftrightarrow> ?M")
    unfolding test_def search_iff rmatch.simps alternatives_iff[OF assms] lit_match_iff
      after_append[symmetric] boundary_position simp_thms boundary_position_neg
    by simp
  also have "?M \<longleftrightarrow> (\<exists>w\<in>set ws. has_whole_word s w)"
  proof
    assume ?M
    then obtain pre rest w m post where h: "s = pre @ rest" "at_word_boundary pre rest"
      "w \<in> set ws" "rest = m @ post" "toLowerCase m = toLowerCase w"
      "at_word_boundary (pre @ m) post"
      by auto
    then have "s = pre @ m @ post \<and> same_ignoring_case m w \<and> at_word_boundary pre (m @ post)
                 \<and> at_word_boundary (pre @ m) post"
      by (simp add: same_ignoring_case_def)
    then have "has_whole_word s w" unfolding has_whole_word_def by (intro exI)
    with h(3) show "\<exists>w\<in>set ws. has_whole_word s w" by (rule rev_bexI)
  next
    assume "\<exists>w\<in>set ws. has_whole_word s w"
    then obtain w pre m post where h: "w \<in> set ws" "s = pre @ m @ post" "same_ignoring_case m w"
      "at_word_boundary pre (m @ post)" "at_word_boundary (pre @ m) post"
      unfolding has_whole_word_def by auto
    from h(1,3,5) have "\<exists>w\<in>set ws. \<exists>m' post'. m @ post = m' @ post'
        \<and> toLowerCase m' = toLowerCase w \<and> at_word_boundary (pre @ m') post'"
      unfolding same_ignoring_case_def by (intro bexI[of _ w] exI[of _ m] exI[of _ post]) simp_all
    with h(2,4) show ?M by (intro exI[of _ pre] exI[of _ "m @ post"]) simp
  qed
  finally show ?thesis .
qed

lemma test_vagueQuantifiers:
  "test vagueQuantifiers s \<longleftrightarrow> (\<exists>w\<in>set vague_words. has_whole_word s w)"
  unfolding vagueQuantifiers_def by (rule whole_word_regex) (simp add: vague_words_def)

lemma test_formatKeywords:
  "test formatKeywords s \<longleftrightarrow> (\<exists>w\<in>set format_words. has_whole_word s w)"
  unfolding formatKeywords_def by (rule whole_word_regex) (simp add: format_words_def)

lemma word_run_iff:
  "(\<exists>m t. rest = m @ t \<and> m \<noteq> [] \<and> (\<forall>c\<in>set m. is_word_char c))
     \<longleftrightarrow> rest \<noteq> [] \<and> is_word_char (hd rest)"
proof
  assume "\<exists>m t. rest = m @ t \<and> m \<noteq> [] \<and> (\<forall>c\<in>set m. is_word_char c)"
  then obtain m t where "rest = m @ t" "m \<noteq> []" "\<forall>c\<in>set m. is_word_char c" by blast
  then show "rest \<noteq> [] \<and> is_word_char (hd rest)" by (cases m) auto
next
  assume a: "rest \<noteq> [] \<and> is_word_char (hd rest)"
  then have "rest = [hd rest] @ tl rest \<and> [hd rest] \<noteq> [] \<and> (\<forall>c\<in>set [hd rest]. is_word_char c)"
    by simp
  then show "\<exists>m t. rest = m @ t \<and> m \<noteq> [] \<and> (\<forall>c\<in>set m. is_word_char c)" by blast
qed

lemma test_broadTopics: "test broadTopics s \<longleftrightarrow> has_broad_opener_by_prefix s"
proof -
  have ne: "opener_words \<noteq> []" "interrogatives \<noteq> []"
    by (simp_all add: opener_words_def interrogatives_def)
  have "test broadTopics s \<longleftrightarrow>
        (\<exists>pre rest0. s = pre @ rest0 \<and> at_word_boundary pre rest0 \<and>
           (\<exists>w\<in>set opener_words. \<exists>opener rest1. rest0 = opener @ rest1
              \<and> toLowerCase opener = toLowerCase w
              \<and> (\<exists>gap rest. rest1 = gap @ rest \<and> gap \<noteq> [] \<and> (\<forall>c\<in>set gap. is_space_char c)
                   \<and> \<not> (\<exists>q\<in>set interrogatives. begins_with_ignoring_case rest q)
                   \<and> rest \<noteq> [] \<and> is_word_char (hd rest))))" (is "_ \<longleftrightarrow> ?M")
    unfolding test_def search_iff broadTopics_def rmatch.simps alternatives_iff[OF ne(1)]
      alternatives_iff[OF ne(2)] lit_match_iff plus_match_iff in_class.simps boundary_position
      simp_thms word_run_iff begins_with_ignoring_case_def same_ignoring_case_def
      boundary_position_neg
    by simp
  also have "?M \<longleftrightarrow> has_broad_opener_by_prefix s"
  proof
    assume ?M
    then obtain pre rest0 w opener rest1 gap rest where h: "s = pre @ rest0"
      "at_word_boundary pre rest0" "w \<in> set opener_words" "rest0 = opener @ rest1"
      "toLowerCase opener = toLowerCase w" "rest1 = gap @ rest" "gap \<noteq> []"
      "\<forall>c\<in>set gap. is_space_char c" "\<not> (\<exists>q\<in>set interrogatives. begins_with_ignoring_case rest q)"
      "rest \<noteq> []" "is_word_char (hd rest)"
      by auto
    from h(3,5) have w: "\<exists>w\<in>set opener_words. same_ignoring_case opener w"
      unfolding same_ignoring_case_def by (rule rev_bexI)
    from h w have "s = pre @ opener @ gap @ rest
        \<and> (\<exists>w\<in>set opener_words. same_ignoring_case opener w)
        \<and> at_word_boundary pre (opener @ gap @ rest)
        \<and> gap \<noteq> [] \<and> (\<forall>c\<in>set gap. is_space_char c)
        \<and> rest \<noteq> [] \<and> is_word_char (hd rest)
        \<and> \<not> (\<exists>q\<in>set interrogatives. begins_with_ignoring_case rest q)"
      by simp
    then show "has_broad_opener_by_prefix s" unfolding has_broad_opener_by_prefix_def by (intro exI)
  next
    assume "has_broad_opener_by_prefix s"
    then obtain pre opener gap rest where hh: "s = pre @ opener @ gap @ rest
        \<and> (\<exists>w\<in>set opener_words. same_ignoring_case opener w)
        \<and> at_word_boundary pre (opener @ gap @ rest)
        \<and> gap \<noteq> [] \<and> (\<forall>c\<in>set gap. is_space_char c)
        \<and> rest \<noteq> [] \<and> is_word_char (hd rest)
        \<and> \<not> (\<exists>q\<in>set interrogatives. begins_with_ignoring_case rest q)"
      unfolding has_broad_opener_by_prefix_def by (elim exE)
    then have h: "s = pre @ opener @ gap @ rest"
        "\<exists>w\<in>set opener_words. same_ignoring_case opener w"
        "at_word_boundary pre (opener @ gap @ rest)"
        "gap \<noteq> []" "\<forall>c\<in>set gap. is_space_char c"
        "rest \<noteq> []" "is_word_char (hd rest)"
        "\<not> (\<exists>q\<in>set interrogatives. begins_with_ignoring_case rest q)"
      by simp_all
    from h(2) obtain w where w: "w \<in> set opener_words" "toLowerCase opener = toLowerCase w"
      unfolding same_ignoring_case_def by auto
    from h have inner: "gap @ rest = gap @ rest \<and> gap \<noteq> [] \<and> (\<forall>c\<in>set gap. is_space_char c)
                   \<and> \<not> (\<exists>q\<in>set interrogatives. begins_with_ignoring_case rest q)
                   \<and> rest \<noteq> [] \<and> is_word_char (hd rest)" by simp
    have mid: "\<exists>w\<in>set opener_words. \<exists>opener' rest1. opener @ gap @ rest = opener' @ rest1
              \<and> toLowerCase opener' = toLowerCase w
              \<and> (\<exists>gap' rest'. rest1 = gap' @ rest' \<and> gap' \<noteq> [] \<and> (\<forall>c\<in>set gap'. is_space_char c)
                   \<and> \<not> (\<exists>q\<in>set interrogatives. begins_with_ignoring_case rest' q)
                   \<and> rest' \<noteq> [] \<and> is_word_char (hd rest'))"
      using w inner by (intro bexI[of _ w] exI[of _ opener] exI[of _ "gap @ rest"] conjI
            exI[of _ gap] exI[of _ rest]) simp_all
    with h(1,3) show ?M by (intro exI[of _ pre] exI[of _ "opener @ gap @ rest"]) simp
  qed
  finally show ?thesis .
qed


section \<open>The ambiguity detector\<close>

lemma questions_detectAmbiguity:
  "questions (detectAmbiguity p) =
     (if test vagueQuantifiers p then [vague_quantifier] else [])
     @ (if test broadTopics p \<and> length p < 50 then [undefined_scope] else [])
     @ (if \<not> test formatKeywords p \<and> length (split CHR '' '' p) > 10
        then [missing_format] else [])"
  by (simp add: detectAmbiguity_def push_if_def Let_def)

lemma length_split: "length (split sep s) = Suc (count_list s sep)"
  by (induction s) (auto split: list.splits)

lemma whole_word_example: "has_whole_word ''Give me SOME examples'' ''some''"
proof -
  have "''Give me SOME examples'' = ''Give me '' @ ''SOME'' @ '' examples''
        \<and> same_ignoring_case ''SOME'' ''some''
        \<and> at_word_boundary ''Give me '' (''SOME'' @ '' examples'')
        \<and> at_word_boundary (''Give me '' @ ''SOME'') '' examples''"
    by code_simp
  then show ?thesis unfolding has_whole_word_def by (intro exI)
qed

text \<open>
  C5. A prompt that contains one of the words or phrases some, few, many, several, a bit,
  lots of as a whole word, in any letter case and with a word boundary on both sides, gets
  the \<open>vague_quantifier\<close> finding, with the question "How many examples or items would you
  like?" and the options 1-2, 3-5, 5-10, More than 10.
\<close>

theorem C5_vague_quantifier:
  assumes "w \<in> {''some'', ''few'', ''many'', ''several'', ''a bit'', ''lots of''}"
    and "has_whole_word prompt w"
  shows "\<lparr>ftype = ''vague_quantifier'',
          question = ''How many examples or items would you like?'',
          options = [''1-2'', ''3-5'', ''5-10'', ''More than 10'']\<rparr>
         \<in> set (questions (detectAmbiguity prompt))"
proof -
  from assms have "\<exists>w\<in>set vague_words. has_whole_word prompt w"
    by (auto simp: vague_words_def)
  then have "test vagueQuantifiers prompt" by (simp only: test_vagueQuantifiers)
  then show ?thesis by (simp add: questions_detectAmbiguity vague_quantifier_def)
qed

theorem C5_vague_quantifier_witness:
  "has_whole_word ''Give me SOME examples'' ''some''
   \<and> \<lparr>ftype = ''vague_quantifier'',
        question = ''How many examples or items would you like?'',
        options = [''1-2'', ''3-5'', ''5-10'', ''More than 10'']\<rparr>
      \<in> set (questions (detectAmbiguity ''Give me SOME examples''))"
  using whole_word_example C5_vague_quantifier[of "''some''" "''Give me SOME examples''"]
  by simp

lemma begins_with_ignoring_case_iff:
  "begins_with_ignoring_case s w \<longleftrightarrow> same_ignoring_case (take (length w) s) w"
proof
  assume "begins_with_ignoring_case s w"
  then obtain m t where h: "s = m @ t" "toLowerCase m = toLowerCase w"
    unfolding begins_with_ignoring_case_def same_ignoring_case_def by blast
  from h(2) have "length m = length w" by (metis length_map toLowerCase_def)
  with h show "same_ignoring_case (take (length w) s) w"
    by (simp add: same_ignoring_case_def)
next
  assume "same_ignoring_case (take (length w) s) w"
  then have "s = take (length w) s @ drop (length w) s \<and> same_ignoring_case (take (length w) s) w"
    by simp
  then show "begins_with_ignoring_case s w"
    unfolding begins_with_ignoring_case_def by (intro exI)
qed

lemma broad_opener_example: "has_broad_opener_by_prefix ''Explain quantum computing''"
proof -
  have "''Explain quantum computing'' = [] @ ''Explain'' @ '' '' @ ''quantum computing''
        \<and> (\<exists>w\<in>set opener_words. same_ignoring_case ''Explain'' w)
        \<and> at_word_boundary [] (''Explain'' @ '' '' @ ''quantum computing'')
        \<and> '' '' \<noteq> [] \<and> (\<forall>c\<in>set '' ''. is_space_char c)
        \<and> ''quantum computing'' \<noteq> [] \<and> is_word_char (hd ''quantum computing'')
        \<and> \<not> (\<exists>q\<in>set interrogatives. begins_with_ignoring_case ''quantum computing'' q)"
    unfolding begins_with_ignoring_case_iff by code_simp
  then show ?thesis unfolding has_broad_opener_by_prefix_def by (intro exI)
qed

lemma names_format_word_test: "names_format_word s \<longleftrightarrow> test formatKeywords s"
  by (simp add: test_formatKeywords names_format_word_def)

lemma no_format_word_example:
  "\<not> names_format_word ''write a short story about a brave little robot named Bolt''"
  unfolding names_format_word_test by code_simp

lemma by_prefix_is_broad_opener:
  assumes "has_broad_opener_by_prefix s"
  shows "has_broad_opener s"
proof -
  from assms obtain pre opener gap rest where hh: "s = pre @ opener @ gap @ rest
        \<and> (\<exists>w\<in>set opener_words. same_ignoring_case opener w)
        \<and> at_word_boundary pre (opener @ gap @ rest)
        \<and> gap \<noteq> [] \<and> (\<forall>c\<in>set gap. is_space_char c)
        \<and> rest \<noteq> [] \<and> is_word_char (hd rest)
        \<and> \<not> (\<exists>q\<in>set interrogatives. begins_with_ignoring_case rest q)"
    unfolding has_broad_opener_by_prefix_def by (elim exE)
  define word where "word = takeWhile is_word_char rest"
  define tail where "tail = dropWhile is_word_char rest"
  have split: "rest = word @ tail" by (simp add: word_def tail_def)
  have ne: "word \<noteq> []" using hh by (cases rest) (simp_all add: word_def)
  have all: "\<forall>c\<in>set word. is_word_char c"
    by (auto simp: word_def dest: set_takeWhileD)
  have stop: "tail = [] \<or> \<not> is_word_char (hd tail)"
    using hd_dropWhile[of is_word_char rest] by (auto simp: tail_def)
  have other: "\<not> (\<exists>q\<in>set interrogatives. same_ignoring_case word q)"
  proof
    assume "\<exists>q\<in>set interrogatives. same_ignoring_case word q"
    then obtain q where q: "q \<in> set interrogatives" "same_ignoring_case word q" by blast
    from split q(2) have "begins_with_ignoring_case rest q"
      unfolding begins_with_ignoring_case_def by blast
    with q(1) hh show False by blast
  qed
  from hh split ne all stop other
  have "s = pre @ opener @ gap @ word @ tail
        \<and> (\<exists>w\<in>set opener_words. same_ignoring_case opener w)
        \<and> at_word_boundary pre (opener @ gap @ word @ tail)
        \<and> gap \<noteq> [] \<and> (\<forall>c\<in>set gap. is_space_char c)
        \<and> word \<noteq> [] \<and> (\<forall>c\<in>set word. is_word_char c)
        \<and> (tail = [] \<or> \<not> is_word_char (hd tail))
        \<and> \<not> (\<exists>q\<in>set interrogatives. same_ignoring_case word q)"
    by simp
  then show ?thesis unfolding has_broad_opener_def by (intro exI)
qed

text \<open>
  C6, as amended. A prompt shorter than 50 code units gets the \<open>undefined_scope\<close> finding
  when it has explain, describe or tell me about (in any letter case, starting at a word
  boundary), then white space, then a word, and the text right after the white space does
  not begin with how, why, when or where (in any letter case). A following word that only
  begins with one of the four, such as however or howler, is excluded as well.
\<close>

theorem C6_undefined_scope:
  assumes "length prompt < 50" and "has_broad_opener_by_prefix prompt"
  shows "\<lparr>ftype = ''undefined_scope'',
          question = ''What level of detail do you need?'',
          options = [''Brief overview'', ''Moderate detail'', ''In-depth explanation'']\<rparr>
         \<in> set (questions (detectAmbiguity prompt))"
proof -
  from assms(2) have "test broadTopics prompt" by (simp only: test_broadTopics)
  with assms(1) show ?thesis by (simp add: questions_detectAmbiguity undefined_scope_def)
qed

theorem C6_undefined_scope_witness:
  "length ''Explain quantum computing'' < 50 \<and> has_broad_opener_by_prefix ''Explain quantum computing''
   \<and> \<lparr>ftype = ''undefined_scope'',
        question = ''What level of detail do you need?'',
        options = [''Brief overview'', ''Moderate detail'', ''In-depth explanation'']\<rparr>
      \<in> set (questions (detectAmbiguity ''Explain quantum computing''))"
  using broad_opener_example C6_undefined_scope[of "''Explain quantum computing''"]
  by simp

lemma broad_opener_howler: "has_broad_opener ''Describe howler monkeys''"
proof -
  have "''Describe howler monkeys'' = [] @ ''Describe'' @ '' '' @ ''howler'' @ '' monkeys''
        \<and> (\<exists>w\<in>set opener_words. same_ignoring_case ''Describe'' w)
        \<and> at_word_boundary [] (''Describe'' @ '' '' @ ''howler'' @ '' monkeys'')
        \<and> '' '' \<noteq> [] \<and> (\<forall>c\<in>set '' ''. is_space_char c)
        \<and> ''howler'' \<noteq> [] \<and> (\<forall>c\<in>set ''howler''. is_word_char c)
        \<and> ('' monkeys'' = [] \<or> \<not> is_word_char (hd '' monkeys''))
        \<and> \<not> (\<exists>q\<in>set interrogatives. same_ignoring_case ''howler'' q)"
    by code_simp
  then show ?thesis unfolding has_broad_opener_def by (intro exI)
qed

text \<open>
  C6, as stated, covers every opener followed by a word that is not how, why, when or
  where. In "Describe howler monkeys" the word after the opener is howler, but the
  lookahead of the pattern has no word boundary and stops at its first three letters: the
  pattern does not match and the finding is absent.
\<close>

theorem C6_counterexample:
  "length ''Describe howler monkeys'' < 50
   \<and> has_broad_opener ''Describe howler monkeys''
   \<and> \<lparr>ftype = ''undefined_scope'',
        question = ''What level of detail do you need?'',
        options = [''Brief overview'', ''Moderate detail'', ''In-depth explanation'']\<rparr>
      \<notin> set (questions (detectAmbiguity ''Describe howler monkeys''))"
proof -
  have "\<lparr>ftype = ''undefined_scope'',
        question = ''What level of detail do you need?'',
        options = [''Brief overview'', ''Moderate detail'', ''In-depth explanation'']\<rparr>
      \<notin> set (questions (detectAmbiguity ''Describe howler monkeys''))"
    by code_simp
  with broad_opener_howler show ?thesis by simp
qed

text \<open>
  C7, as amended. A prompt that contains none of the words list, table, summary, paragraph,
  code, json, steps as a whole word (in any letter case) and that contains at least ten
  space characters, so that splitting it at single spaces gives more than ten pieces,
  gets the \<open>missing_format\<close> finding.
\<close>

theorem C7_missing_format:
  assumes "\<not> names_format_word prompt" and "10 \<le> count_list prompt CHR '' ''"
  shows "\<lparr>ftype = ''missing_format'',
          question = ''How should the output be formatted?'',
          options = [''Bullet points'', ''Paragraph'', ''Step-by-step'', ''Table'']\<rparr>
         \<in> set (questions (detectAmbiguity prompt))"
proof -
  from assms(1) have "\<not> test formatKeywords prompt"
    by (simp add: test_formatKeywords names_format_word_def)
  moreover from assms(2) have "length (split CHR '' '' prompt) > 10"
    by (simp add: length_split)
  ultimately show ?thesis by (simp add: questions_detectAmbiguity missing_format_def)
qed

theorem C7_missing_format_witness:
  "\<not> names_format_word ''write a short story about a brave little robot named Bolt''
   \<and> 10 \<le> count_list ''write a short story about a brave little robot named Bolt'' CHR '' ''
   \<and> \<lparr>ftype = ''missing_format'',
        question = ''How should the output be formatted?'',
        options = [''Bullet points'', ''Paragraph'', ''Step-by-step'', ''Table'']\<rparr>
      \<in> set (questions (detectAmbiguity
            ''write a short story about a brave little robot named Bolt''))"
proof -
  have c: "10 \<le> count_list ''write a short story about a brave little robot named Bolt'' CHR '' ''"
    by code_simp
  show ?thesis
    using no_format_word_example c
      C7_missing_format[of "''write a short story about a brave little robot named Bolt''"]
    by simp
qed

text \<open>
  C7, as stated, counts tokens separated by white space. The prompt below has eleven such
  tokens and none of the format words, but two of its separators are line breaks: split at
  single spaces it has nine pieces, and the finding is absent.
\<close>

theorem C7_counterexample:
  "10 < whitespace_tokens
          ''Write a story\<newline>about a brave little robot\<newline>named Bolt please''
   \<and> \<not> names_format_word
          ''Write a story\<newline>about a brave little robot\<newline>named Bolt please''
   \<and> \<lparr>ftype = ''missing_format'',
        question = ''How should the output be formatted?'',
        options = [''Bullet points'', ''Paragraph'', ''Step-by-step'', ''Table'']\<rparr>
      \<notin> set (questions (detectAmbiguity
            ''Write a story\<newline>about a brave little robot\<newline>named Bolt please''))"
  unfolding names_format_word_test by code_simp

text \<open>
  C10. For every prompt, \<open>hasAmbiguity\<close> is true exactly when the list of questions is not
  empty, and the types of the findings returned are a subsequence of vague_quantifier,
  undefined_scope, missing_format: they come in that order and none occurs twice.
\<close>

theorem C10_detect_shape:
  "hasAmbiguity (detectAmbiguity prompt) = (questions (detectAmbiguity prompt) \<noteq> [])
   \<and> subseq (map ftype (questions (detectAmbiguity prompt)))
        [''vague_quantifier'', ''undefined_scope'', ''missing_format'']
   \<and> distinct (map ftype (questions (detectAmbiguity prompt)))"
  by (simp add: detectAmbiguity_def push_if_def Let_def vague_quantifier_def
        undefined_scope_def missing_format_def)

section \<open>The intent classifier\<close>

lemma startsWith_iff: "startsWith s k \<longleftrightarrow> (\<exists>post. s = k @ post)"
  by (induction s k rule: startsWith.induct) auto

lemma includes_str_iff: "includes_str s k \<longleftrightarrow> is_substring k s"
proof (induction s)
  case Nil
  then show ?case by (auto simp: is_substring_def startsWith_iff)
next
  case (Cons c cs)
  have "is_substring k (c # cs) \<longleftrightarrow> startsWith (c # cs) k \<or> is_substring k cs"
  proof
    assume "is_substring k (c # cs)"
    then obtain pre post where h: "c # cs = pre @ k @ post" unfolding is_substring_def by blast
    show "startsWith (c # cs) k \<or> is_substring k cs"
    proof (cases pre)
      case Nil
      with h show ?thesis by (auto simp: startsWith_iff)
    next
      case (Cons y ys)
      with h have "cs = ys @ k @ post" by simp
      then show ?thesis unfolding is_substring_def by blast
    qed
  next
    assume "startsWith (c # cs) k \<or> is_substring k cs"
    then show "is_substring k (c # cs)"
    proof
      assume "startsWith (c # cs) k"
      then obtain post where "c # cs = [] @ k @ post" by (auto simp: startsWith_iff)
      then show ?thesis unfolding is_substring_def by blast
    next
      assume "is_substring k cs"
      then obtain pre post where "cs = pre @ k @ post" unfolding is_substring_def by blast
      then have "c # cs = (c # pre) @ k @ post" by simp
      then show ?thesis unfolding is_substring_def by blast
    qed
  qed
  with Cons show ?case by simp
qed

text \<open>
  C8. \<open>isImageGenerationRequest\<close> lower-cases the prompt and is true exactly when the
  lower-cased prompt has an image keyword as a substring and, besides, a creation verb or a
  quality descriptor as a substring. It is true for "Create a stunning vibrant poster of a
  dragon" and false for "Explain how TCP congestion control works".
\<close>

theorem C8_isImageGenerationRequest:
  "(isImageGenerationRequest prompt \<longleftrightarrow>
      (\<exists>k\<in>{''image'', ''picture'', ''photo'', ''visual'', ''graphic'', ''illustration'',
             ''artwork'', ''thumbnail'', ''poster'', ''banner''}.
          is_substring k (toLowerCase prompt))
      \<and> ((\<exists>v\<in>{''create'', ''generate'', ''make'', ''design'', ''draw'', ''produce'', ''craft''}.
             is_substring v (toLowerCase prompt))
         \<or> (\<exists>q\<in>{''high quality'', ''vibrant'', ''eye-catching'', ''ultra'', ''stunning'',
                 ''dramatic'', ''cinematic''}.
             is_substring q (toLowerCase prompt))))
   \<and> isImageGenerationRequest ''Create a stunning vibrant poster of a dragon''
   \<and> \<not> isImageGenerationRequest ''Explain how TCP congestion control works''"
proof (intro conjI)
  show "isImageGenerationRequest prompt \<longleftrightarrow>
      (\<exists>k\<in>{''image'', ''picture'', ''photo'', ''visual'', ''graphic'', ''illustration'',
             ''artwork'', ''thumbnail'', ''poster'', ''banner''}.
          is_substring k (toLowerCase prompt))
      \<and> ((\<exists>v\<in>{''create'', ''generate'', ''make'', ''design'', ''draw'', ''produce'', ''craft''}.
             is_substring v (toLowerCase prompt))
         \<or> (\<exists>q\<in>{''high quality'', ''vibrant'', ''eye-catching'', ''ultra'', ''stunning'',
                 ''dramatic'', ''cinematic''}.
             is_substring q (toLowerCase prompt)))"
    by (simp add: isImageGenerationRequest_def Let_def includes_str_iff imageKeywords_def
          creationVerbs_def qualityKeywords_def)
  show "isImageGenerationRequest ''Create a stunning vibrant poster of a dragon''"
    by code_simp
  show "\<not> isImageGenerationRequest ''Explain how TCP congestion control works''"
    by code_simp
qed

section \<open>The formatter and the reframe route\<close>

lemma formatForModel_lengths:
  "original_length (metadata (formatForModel m r p now)) = length (original_prompt (formatForModel m r p now))
   \<and> reframed_length (metadata (formatForModel m r p now)) = length (raw (reframed (formatForModel m r p now)))"
  by (simp add: formatForModel_def)

lemma formatForModel_sel [simp]:
  "model (formatForModel m r p now) = m"
  "original_prompt (formatForModel m r p now) = p"
  "raw (reframed (formatForModel m r p now)) = r"
  "original_length (metadata (formatForModel m r p now)) = length p"
  "reframed_length (metadata (formatForModel m r p now)) = length r"
  "timestamp (metadata (formatForModel m r p now)) = now"
  "error (formatForModel m r p now) = None"
  by (simp_all add: formatForModel_def)

lemma reframe_bodies:
  "body (fst (reframe txt api_key create now req)) = ResultBody r \<Longrightarrow>
     \<exists>m t p. r = formatForModel m t p now
           \<or> r = (formatForModel m t p now)\<lparr>error := Some ''Automatic restructuring unavailable''\<rparr>"
  by (auto simp: reframe_def Let_def degraded_def missing_prompt_def invalid_model_def
      split: option.splits if_splits completion_outcome.splits)

text \<open>
  C9. Whenever the route answers with a formatted result (full or degraded),
  \<open>metadata.original_length\<close> is the length of \<open>original_prompt\<close> and
  \<open>metadata.reframed_length\<close> is the length of \<open>reframed.raw\<close>, both counted in code units
  as \<open>.length\<close> does.
\<close>

theorem C9_lengths:
  assumes "body (fst (reframe txt api_key create now req)) = ResultBody r"
  shows "original_length (metadata r) = length (original_prompt r)
         \<and> reframed_length (metadata r) = length (raw (reframed r))"
  using reframe_bodies[OF assms] by auto


theorem C9_lengths_witness:
  "body (fst (reframe sample_texts (Some ''sk-test'') (\<lambda>call. Resolved (Some '' Compose a poem. ''))
            ''2026-01-01T00:00:00.000Z''
            \<lparr>raw_prompt = Some ''Write a poem'', model_id = Some ''claude'',
             clarifications = None\<rparr>))
     = ResultBody (formatForModel ''claude'' ''Compose a poem.'' ''Write a poem''
                     ''2026-01-01T00:00:00.000Z'')
   \<and> original_length (metadata (formatForModel ''claude'' ''Compose a poem.'' ''Write a poem''
                     ''2026-01-01T00:00:00.000Z'')) = 12
   \<and> reframed_length (metadata (formatForModel ''claude'' ''Compose a poem.'' ''Write a poem''
                     ''2026-01-01T00:00:00.000Z'')) = 15"
proof -
  have b: "body (fst (reframe sample_texts (Some ''sk-test'')
            (\<lambda>call. Resolved (Some '' Compose a poem. ''))
            ''2026-01-01T00:00:00.000Z''
            \<lparr>raw_prompt = Some ''Write a poem'', model_id = Some ''claude'',
             clarifications = None\<rparr>))
     = ResultBody (formatForModel ''claude'' ''Compose a poem.'' ''Write a poem''
                     ''2026-01-01T00:00:00.000Z'')"
    by code_simp
  show ?thesis using b C9_lengths[OF b] by simp
qed

lemma recognized_lookup:
  "m \<in> recognized_models \<Longrightarrow> MODEL_TEMPLATES txt m \<noteq> Undefined \<and> m \<noteq> []"
  by (auto simp: recognized_models_def MODEL_TEMPLATES_def)

lemma reframe_without_key:
  assumes "raw_prompt req = Some p" and "p \<noteq> []"
    and "model_id req = Some m" and "m \<in> recognized_models"
    and "falsy api_key"
  shows "reframe txt api_key create now req =
           (\<lparr>status = 200, body = PassThroughBody p m ''API key not configured'' now\<rparr>, [])"
  using assms recognized_lookup[of m "txt"]
  by (simp add: reframe_def)

lemma serve_reframe_without_key:
  "falsy api_key \<Longrightarrow> serve_reframe txt api_key create now req = Inl ''OPENAI_API_KEY is missing''"
  by (simp add: serve_reframe_def load_error_def)

lemma serve_reframe_never_flat:
  "serve_reframe txt api_key create now req = Inr (resp, calls) \<Longrightarrow>
     body resp \<noteq> PassThroughBody p m e t"
  by (auto simp: serve_reframe_def load_error_def reframe_def Let_def degraded_def
        missing_prompt_def invalid_model_def
      split: if_splits option.splits completion_outcome.splits)

text \<open>
  C1. The claim is that without a credential \<open>reframe("Write a poem", "claude")\<close> returns
  the outbound shape with \<open>reframed.raw\<close> equal to the prompt and \<open>error\<close> set. The code
  does not do that. With the variable absent the module throws at load, so the program
  answers no request at all. The branch of the route written for this case would answer
  with the flat body \<open>{restructured_prompt, model, error, timestamp}\<close>, which has no
  \<open>reframed.raw\<close>, unlike the \<open>catch\<close> block beside it, which formats the original prompt.
\<close>

theorem C1_no_degraded_result:
  "serve_reframe sample_texts None (\<lambda>call. Rejected) ''2026-01-01T00:00:00.000Z''
     \<lparr>raw_prompt = Some ''Write a poem'', model_id = Some ''claude'', clarifications = None\<rparr>
     = Inl ''OPENAI_API_KEY is missing''
   \<and> fst (reframe sample_texts None (\<lambda>call. Rejected) ''2026-01-01T00:00:00.000Z''
       \<lparr>raw_prompt = Some ''Write a poem'', model_id = Some ''claude'', clarifications = None\<rparr>)
     = \<lparr>status = 200,
        body = PassThroughBody ''Write a poem'' ''claude'' ''API key not configured''
                 ''2026-01-01T00:00:00.000Z''\<rparr>
   \<and> body_reframed_raw (body (fst (reframe sample_texts None (\<lambda>call. Rejected)
       ''2026-01-01T00:00:00.000Z''
       \<lparr>raw_prompt = Some ''Write a poem'', model_id = Some ''claude'',
        clarifications = None\<rparr>))) = None"
  by code_simp




text \<open>
  The two rejections: an absent or empty prompt is answered with 400 "Prompt is required";
  an absent model, or one that is neither an own key of \<open>MODEL_TEMPLATES\<close> nor a property
  name of \<open>Object.prototype\<close>, with 400 "Invalid model specified". No completion call is
  made in either case.
\<close>

lemma reframe_missing_prompt:
  "raw_prompt req = None \<or> raw_prompt req = Some [] \<Longrightarrow>
     reframe txt api_key create now req = (missing_prompt, [])"
  by (auto simp: reframe_def)

lemma reframe_unknown_model:
  assumes "raw_prompt req = Some p" and "p \<noteq> []"
    and "model_id req = None \<or> (\<exists>m. model_id req = Some m \<and> m \<notin> recognized_models
           \<and> m \<notin> set object_prototype_properties)"
  shows "reframe txt api_key create now req = (invalid_model, [])"
  using assms by (auto simp: reframe_def MODEL_TEMPLATES_def recognized_models_def)

text \<open>
  C4. The claim is that every model identifier outside chatgpt, claude, gemini, perplexity,
  others is rejected. The check is \<open>!MODEL_TEMPLATES[model]\<close>, and for the identifier
  "constructor" the lookup finds \<open>Object.prototype.constructor\<close>, which is truthy: the
  request is not rejected, the status is 200 and one completion call is made, whatever the
  completion service answers.
\<close>

theorem C4_inherited_property_accepted:
  "status (fst (reframe txt (Some ''sk-test'') create now
      \<lparr>raw_prompt = Some ''Write a poem'', model_id = Some ''constructor'',
       clarifications = None\<rparr>)) = 200
   \<and> length (snd (reframe txt (Some ''sk-test'') create now
      \<lparr>raw_prompt = Some ''Write a poem'', model_id = Some ''constructor'',
       clarifications = None\<rparr>)) = 1"
  by (simp add: reframe_def MODEL_TEMPLATES_def object_prototype_properties_def falsy_def
        Let_def degraded_def split: completion_outcome.splits option.splits)

section \<open>The system and user split\<close>

lemma scan_lines_boundary:
  "scan_lines ls acc = (case boundary_scan acc ls of Some b \<Rightarrow> b | None \<Rightarrow> acc @ ls)"
  by (induction ls arbitrary: acc) (auto split: option.splits)

lemma split_not_Nil: "split sep s \<noteq> []"
  by (induction s) (auto split: list.splits)

lemma join_Cons_Cons: "join sep ((c # l) # ls) = c # join sep (l # ls)"
  by (cases ls) simp_all

lemma join_Nil_Cons: "ls \<noteq> [] \<Longrightarrow> join sep ([] # ls) = sep @ join sep ls"
  by (cases ls) simp_all

lemma join_split: "join [sep] (split sep s) = s"
proof (induction s)
  case Nil
  then show ?case by simp
next
  case (Cons c cs)
  show ?case
  proof (cases "c = sep")
    case True
    with Cons show ?thesis by (simp add: join_Nil_Cons split_not_Nil)
  next
    case False
    obtain l ls where l: "split sep cs = l # ls"
      using split_not_Nil[of sep cs] by (cases "split sep cs") auto
    with False Cons show ?thesis by (simp add: join_Cons_Cons)
  qed
qed

lemma extractSystemPrompt_amended: "extractSystemPrompt text = amended_system_content text"
  by (simp add: extractSystemPrompt_def amended_system_content_def Let_def scan_lines_boundary
      split: option.splits)

text \<open>
  C3, as amended. For the chatgpt target the payload has a system message and a user
  message. The restructured text is scanned line by line, accumulating lines until a line
  whose trimmed text starts with \<open>#\<close> is met after at least one line has been accumulated;
  the accumulated lines, joined by line breaks and trimmed of white space at both ends, are
  the system content, unless that is empty, in which case the system content is the whole
  restructured text. The user content is always the whole restructured text. When there is
  no such boundary the system content is the trimmed text (the text itself when it trims to
  nothing).
\<close>

theorem C3_chatgpt_payload:
  "api_ready (reframed (formatForModel ''chatgpt'' text original now))
     = ChatgptPayload ''gpt-4o''
         [\<lparr>role = ''system'', content = amended_system_content text\<rparr>,
          \<lparr>role = ''user'', content = text\<rparr>] 0
   \<and> (boundary_scan [] (split newline text) = None \<longrightarrow>
        amended_system_content text = (if trim text = [] then text else trim text))"
proof
  show "api_ready (reframed (formatForModel ''chatgpt'' text original now))
     = ChatgptPayload ''gpt-4o''
         [\<lparr>role = ''system'', content = amended_system_content text\<rparr>,
          \<lparr>role = ''user'', content = text\<rparr>] 0"
    by (simp add: formatForModel_def extractSystemPrompt_amended extractUserTask_def)
  show "boundary_scan [] (split newline text) = None \<longrightarrow>
        amended_system_content text = (if trim text = [] then text else trim text)"
    by (simp add: amended_system_content_def Let_def join_split)
qed

theorem C3_chatgpt_payload_witness:
  "boundary_scan [] (split newline ''  Summarise the report.  '') = None
   \<and> api_ready (reframed (formatForModel ''chatgpt'' ''  Summarise the report.  ''
        ''summarise'' ''2026-01-01T00:00:00.000Z''))
     = ChatgptPayload ''gpt-4o''
         [\<lparr>role = ''system'', content = ''Summarise the report.''\<rparr>,
          \<lparr>role = ''user'', content = ''  Summarise the report.  ''\<rparr>] 0"
proof -
  have b: "boundary_scan [] (split newline ''  Summarise the report.  '') = None"
    by code_simp
  have t: "trim ''  Summarise the report.  '' = ''Summarise the report.''"
    by code_simp
  show ?thesis
    using b t C3_chatgpt_payload[of "''  Summarise the report.  ''" "''summarise''"
        "''2026-01-01T00:00:00.000Z''"]
    by simp
qed

text \<open>
  C3, as stated, takes everything before the boundary as the system content. In the text
  below the first line is empty and the second is a heading, so what precedes the boundary
  is empty; the code then falls back to the whole text.
\<close>

theorem C3_counterexample:
  "api_ready (reframed (formatForModel ''chatgpt'' ''\<newline># Title\<newline>body''
        ''\<newline># Title\<newline>body'' ''2026-01-01T00:00:00.000Z''))
     \<noteq> ChatgptPayload ''gpt-4o''
         [\<lparr>role = ''system'', content = stated_system_content ''\<newline># Title\<newline>body''\<rparr>,
          \<lparr>role = ''user'', content = ''\<newline># Title\<newline>body''\<rparr>] 0"
proof -
  have c: "extractSystemPrompt ''\<newline># Title\<newline>body'' = ''\<newline># Title\<newline>body''"
    by code_simp
  have s: "stated_system_content ''\<newline># Title\<newline>body'' = []"
    by code_simp
  show ?thesis by (simp add: formatForModel_def c s)
qed

end
